theory Spec2Isabelle
  imports Main
begin

section \<open>Values\<close>

text \<open>
  The picker's utilities (\<^verbatim>\<open>src/utils.ts\<close>, the later of the two versions kept in that
  file) and its selection handler (\<^verbatim>\<open>src/datetime-picker.tsx\<close>) work on dayjs objects.
  A dayjs object is modelled by the fields the source reads and writes: \<open>S_d\<close> is
  \<^verbatim>\<open>$d\<close> (the instant, in milliseconds since the epoch), \<open>S_C\<close> is \<^verbatim>\<open>$C\<close> (the calendar
  system tag), \<open>S_y\<close>, \<open>S_M\<close>, \<open>S_D\<close>, \<open>S_W\<close>, \<open>S_H\<close>, \<open>S_m\<close> are \<^verbatim>\<open>$y $M $D $W $H $m\<close>
  (what \<^verbatim>\<open>year() month() date() day() hour() minute()\<close> return), and the \<open>S_C_\<close> and
  \<open>S_G_\<close> fields are the copies \<^verbatim>\<open>adjustDayjsHijriDate\<close> writes (\<open>None\<close> while unset).
\<close>

datatype CalendarType = gregory | islamic | jalali

record Dayjs =
  S_d :: int
  S_C :: CalendarType
  S_y :: int
  S_M :: int
  S_D :: int
  S_W :: int
  S_H :: int
  S_m :: int
  S_C_y :: "int option"
  S_C_M :: "int option"
  S_C_D :: "int option"
  S_G_y :: "int option"
  S_G_M :: "int option"
  S_G_D :: "int option"

text \<open>
  \<^verbatim>\<open>DateType\<close>: \<^verbatim>\<open>undefined\<close>, \<^verbatim>\<open>null\<close>, a native \<^verbatim>\<open>Date\<close> (or a number or a string that
  parses to that instant), or a dayjs object. The falsy number 0, the empty string and a
  string that does not parse are left out.
\<close>

datatype DateType = Undefined | Null | JsDate int | Dj Dayjs

datatype error = TypeError | RangeError | InvalidDate

definition ebind :: "error + 'a \<Rightarrow> ('a \<Rightarrow> error + 'b) \<Rightarrow> error + 'b" where
  "ebind r f = (case r of Inl e \<Rightarrow> Inl e | Inr x \<Rightarrow> f x)"

definition truthy :: "DateType \<Rightarrow> bool" where
  "truthy x = (x \<noteq> Undefined \<and> x \<noteq> Null)"

section \<open>The libraries the source calls\<close>

text \<open>
  dayjs, its calendar plugins and \<^verbatim>\<open>@umalqura/core\<close> are not part of the repository.
  What the source needs from them is a parameter \<open>lib\<close>: the clock, the locale's first
  weekday, the calendar arithmetic of the two plugin calendars, and the Umm al-Qura
  conversions. The Gregorian arithmetic of dayjs itself is written out below. One time
  zone of offset zero stands for both the host zone and the \<^verbatim>\<open>timeZone\<close> prop, so a day
  is a block of 86400000 ms and \<^verbatim>\<open>dayjs.tz(x, timeZone)\<close> keeps the object it is given.
  A library call that would raise on an input outside its tables is not modelled: the
  parameters are total. The field \<^verbatim>\<open>hd\<close> of an Umm al-Qura date is \<open>hd_uq\<close> here.
\<close>

record UmAlQura =
  hy :: int
  hm :: int
  hd_uq :: int
  dayOfWeek :: int

record GregoryDate =
  gy :: int
  gm :: int
  gd :: int

record calsys =
  of_days :: "int \<Rightarrow> int \<times> int \<times> int"
  to_days :: "int \<Rightarrow> int \<Rightarrow> int \<Rightarrow> int"
  month_len :: "int \<Rightarrow> int \<Rightarrow> int"

record lib =
  now_ms :: int
  weekStart :: int
  jalali_sys :: calsys
  hijri_sys :: calsys
  umalqura_date :: "int \<Rightarrow> UmAlQura"
  umalqura_hijri :: "int \<Rightarrow> int \<Rightarrow> int \<Rightarrow> UmAlQura"
  hijriToGregorian :: "int \<Rightarrow> int \<Rightarrow> int \<Rightarrow> GregoryDate"
  umalqura_startOfWeek :: "UmAlQura \<Rightarrow> UmAlQura"

definition MS_DAY :: int where
  "MS_DAY = 86400000"

subsection \<open>Gregorian day arithmetic\<close>

text \<open>
  Months are 0-based as in JavaScript. \<open>days_from_civil\<close> is \<^verbatim>\<open>new Date(y, M, D)\<close> as a
  day number (days since 1970-01-01): a month outside 0..11 carries into the year and the
  day of the month is added linearly, as \<^verbatim>\<open>Date\<close> does.
\<close>

definition days_from_civil :: "int \<Rightarrow> int \<Rightarrow> int \<Rightarrow> int" where
  "days_from_civil y M D =
     (let y1 = y + M div 12;
          m1 = M mod 12 + 1;
          y2 = (if m1 \<le> 2 then y1 - 1 else y1);
          era = y2 div 400;
          yoe = y2 - era * 400;
          mp = (m1 + 9) mod 12;
          doy = (153 * mp + 2) div 5;
          doe = yoe * 365 + yoe div 4 - yoe div 100 + doy
      in era * 146097 + doe - 719468 + (D - 1))"

definition civil_from_days :: "int \<Rightarrow> int \<times> int \<times> int" where
  "civil_from_days n =
     (let z = n + 719468;
          era = z div 146097;
          doe = z - era * 146097;
          yoe = (doe - doe div 1460 + doe div 36524 - doe div 146096) div 365;
          doy = doe - (365 * yoe + yoe div 4 - yoe div 100);
          mp = (5 * doy + 2) div 153;
          dd = doy - (153 * mp + 2) div 5 + 1;
          mm = (if mp < 10 then mp + 3 else mp - 9);
          yy = yoe + era * 400 + (if mm \<le> 2 then 1 else 0)
      in (yy, mm - 1, dd))"

definition isLeapYear :: "int \<Rightarrow> bool" where
  "isLeapYear y = ((y mod 4 = 0 \<and> y mod 100 \<noteq> 0) \<or> y mod 400 = 0)"

definition gregory_month_len :: "int \<Rightarrow> int \<Rightarrow> int" where
  "gregory_month_len y M =
     (let y1 = y + M div 12; M1 = M mod 12
      in if M1 = 1 then (if isLeapYear y1 then 29 else 28)
         else if M1 = 3 \<or> M1 = 5 \<or> M1 = 8 \<or> M1 = 10 then 30
         else 31)"

definition gregory_sys :: calsys where
  "gregory_sys =
     \<lparr>of_days = civil_from_days, to_days = days_from_civil, month_len = gregory_month_len\<rparr>"

definition sys :: "lib \<Rightarrow> CalendarType \<Rightarrow> calsys" where
  "sys l c = (case c of gregory \<Rightarrow> gregory_sys | jalali \<Rightarrow> jalali_sys l | islamic \<Rightarrow> hijri_sys l)"

subsection \<open>dayjs objects\<close>

text \<open>
  \<open>dayjs_init\<close> is dayjs's \<^verbatim>\<open>init()\<close>: the cached fields of an instant under a calendar.
  The weekday comes from the instant alone (1970-01-01 was a Thursday).
\<close>

definition dayjs_init :: "lib \<Rightarrow> CalendarType \<Rightarrow> int \<Rightarrow> Dayjs" where
  "dayjs_init l c t =
     (let n = t div MS_DAY;
          r = t mod MS_DAY;
          ymd = of_days (sys l c) n
      in \<lparr>S_d = t, S_C = c,
          S_y = fst ymd, S_M = fst (snd ymd), S_D = snd (snd ymd),
          S_W = (n + 4) mod 7,
          S_H = r div 3600000, S_m = (r mod 3600000) div 60000,
          S_C_y = None, S_C_M = None, S_C_D = None,
          S_G_y = None, S_G_M = None, S_G_D = None\<rparr>)"

text \<open>
  The picker calls \<^verbatim>\<open>dayjs.calendar(calendar)\<close> for every calendar but islamic, so a
  fresh \<^verbatim>\<open>dayjs(x)\<close> is a Gregorian object in islamic mode and an object of the prop's
  calendar otherwise.
\<close>

definition host_cal :: "CalendarType \<Rightarrow> CalendarType" where
  "host_cal c = (if c = islamic then gregory else c)"

text \<open>
  \<^verbatim>\<open>dayjs(x)\<close>: now for \<^verbatim>\<open>undefined\<close>, the object itself (a clone) for a dayjs object, and
  an Invalid Date for \<^verbatim>\<open>null\<close>, which is the error \<open>InvalidDate\<close> here.
\<close>

definition dayjs :: "lib \<Rightarrow> CalendarType \<Rightarrow> DateType \<Rightarrow> error + Dayjs" where
  "dayjs l c x =
     (case x of
        Undefined \<Rightarrow> Inr (dayjs_init l (host_cal c) (now_ms l))
      | Null \<Rightarrow> Inl InvalidDate
      | JsDate t \<Rightarrow> Inr (dayjs_init l (host_cal c) t)
      | Dj d \<Rightarrow> Inr d)"


definition at_day :: "lib \<Rightarrow> Dayjs \<Rightarrow> int \<Rightarrow> Dayjs" where
  "at_day l d n = dayjs_init l (S_C d) (n * MS_DAY + S_d d mod MS_DAY)"

text \<open>
  The setters, after dayjs's \<^verbatim>\<open>$set\<close>: the day of the month is set linearly; a month or
  a year is set on day 1 and the day is then clamped to the length of the month reached.
\<close>

definition set_date :: "lib \<Rightarrow> Dayjs \<Rightarrow> int \<Rightarrow> Dayjs" where
  "set_date l d n = at_day l d (to_days (sys l (S_C d)) (S_y d) (S_M d) 1 + (n - 1))"

definition set_month :: "lib \<Rightarrow> Dayjs \<Rightarrow> int \<Rightarrow> Dayjs" where
  "set_month l d n =
     (let s = sys l (S_C d);
          first = to_days s (S_y d) n 1;
          ymd = of_days s first
      in at_day l d (first + (min (S_D d) (month_len s (fst ymd) (fst (snd ymd))) - 1)))"

definition set_year :: "lib \<Rightarrow> Dayjs \<Rightarrow> int \<Rightarrow> Dayjs" where
  "set_year l d n =
     (let s = sys l (S_C d);
          first = to_days s n (S_M d) 1;
          ymd = of_days s first
      in at_day l d (first + (min (S_D d) (month_len s (fst ymd) (fst (snd ymd))) - 1)))"

definition add_month :: "lib \<Rightarrow> Dayjs \<Rightarrow> int \<Rightarrow> Dayjs" where
  "add_month l d k = set_month l d (S_M d + k)"

definition add_day :: "lib \<Rightarrow> Dayjs \<Rightarrow> int \<Rightarrow> Dayjs" where
  "add_day l d k = dayjs_init l (S_C d) (S_d d + k * MS_DAY)"

definition daysInMonth :: "lib \<Rightarrow> Dayjs \<Rightarrow> int" where
  "daysInMonth l d = month_len (sys l (S_C d)) (S_y d) (S_M d)"

definition toCalendarSystem :: "lib \<Rightarrow> Dayjs \<Rightarrow> CalendarType \<Rightarrow> Dayjs" where
  "toCalendarSystem l d c = dayjs_init l c (S_d d)"

definition startOf_day :: "Dayjs \<Rightarrow> Dayjs" where
  "startOf_day d = d\<lparr>S_d := S_d d - S_d d mod MS_DAY, S_H := 0, S_m := 0\<rparr>"

definition endOf_day :: "Dayjs \<Rightarrow> Dayjs" where
  "endOf_day d = d\<lparr>S_d := S_d d - S_d d mod MS_DAY + (MS_DAY - 1), S_H := 23, S_m := 59\<rparr>"

definition startOf_week :: "lib \<Rightarrow> Dayjs \<Rightarrow> Dayjs" where
  "startOf_week l d =
     (let gap = (if S_W d < weekStart l then S_W d + 7 else S_W d) - weekStart l
      in set_date l (startOf_day d) (S_D d - gap))"

definition isBefore :: "Dayjs \<Rightarrow> Dayjs \<Rightarrow> bool" where
  "isBefore a b = (S_d a < S_d b)"

definition isAfter :: "Dayjs \<Rightarrow> Dayjs \<Rightarrow> bool" where
  "isAfter a b = (S_d a > S_d b)"

definition isSame_day :: "Dayjs \<Rightarrow> Dayjs \<Rightarrow> bool" where
  "isSame_day a b = (S_d (startOf_day a) \<le> S_d b \<and> S_d b \<le> S_d (endOf_day a))"




text \<open>
  \<^verbatim>\<open>format('YYYY-MM-DD')\<close> prints \<^verbatim>\<open>$y\<close>, \<^verbatim>\<open>$M + 1\<close> and \<^verbatim>\<open>$D\<close>; two such strings are equal
  exactly when the three numbers are, so the triple stands for the string.
\<close>

definition format_DATE :: "Dayjs \<Rightarrow> int \<times> int \<times> int" where
  "format_DATE d = (S_y d, S_M d + 1, S_D d)"

text \<open>\<^verbatim>\<open>new Date(y, M, D)\<close> as an instant; years 0 to 99 mean 1900 to 1999.\<close>

definition js_Date_ymd :: "int \<Rightarrow> int \<Rightarrow> int \<Rightarrow> int" where
  "js_Date_ymd y M D =
     days_from_civil (if 0 \<le> y \<and> y \<le> 99 then 1900 + y else y) M D * MS_DAY"

section \<open>utils.ts\<close>

definition convertHijriToGregorian :: "lib \<Rightarrow> UmAlQura \<Rightarrow> GregoryDate" where
  "convertHijriToGregorian l umalquraDate =
     hijriToGregorian l (hy umalquraDate) (hm umalquraDate) (hd_uq umalquraDate)"

text \<open>
  \<^verbatim>\<open>adjustDayjsHijriDate(dayjsDate, hijriDate?)\<close>. Reading \<^verbatim>\<open>$C\<close> of \<^verbatim>\<open>null\<close> or
  \<^verbatim>\<open>undefined\<close> raises a TypeError. The object the plugin returns is tagged islamic; the
  source then overwrites its calendar fields with the Umm al-Qura ones.
\<close>

definition adjustDayjsHijriDate :: "lib \<Rightarrow> DateType \<Rightarrow> UmAlQura option \<Rightarrow> error + Dayjs" where
  "adjustDayjsHijriDate l dayjsDate hijriDate =
     (case dayjsDate of
        Undefined \<Rightarrow> Inl TypeError
      | Null \<Rightarrow> Inl TypeError
      | JsDate t \<Rightarrow>
          (let umalquraDate = (case hijriDate of Some u \<Rightarrow> u | None \<Rightarrow> umalqura_date l t);
               gregoryDate = convertHijriToGregorian l umalquraDate;
               validDate =
                 set_month l
                   (set_year l (toCalendarSystem l (dayjs_init l gregory t) islamic)
                      (hy umalquraDate))
                   (hm umalquraDate - 1)
           in Inr (validDate
                \<lparr>S_M := hm umalquraDate - 1, S_C_M := Some (hm umalquraDate - 1),
                 S_D := hd_uq umalquraDate, S_C_D := Some (hd_uq umalquraDate),
                 S_y := hy umalquraDate, S_C_y := Some (hy umalquraDate),
                 S_G_D := Some (gd gregoryDate), S_G_M := Some (gm gregoryDate),
                 S_G_y := Some (gy gregoryDate),
                 S_W := dayOfWeek umalquraDate\<rparr>))
      | Dj d \<Rightarrow>
          (let umalquraDate =
                 (case hijriDate of
                    Some u \<Rightarrow> u
                  | None \<Rightarrow> umalqura_date l (js_Date_ymd (S_y d) (S_M d) (S_D d)));
               gregoryDate = convertHijriToGregorian l umalquraDate;
               validDate =
                 (if S_C d = islamic
                  then set_month l
                         (set_date l (set_year l d (hy umalquraDate)) (hd_uq umalquraDate))
                         (hm umalquraDate - 1)
                  else set_month l
                         (set_year l (toCalendarSystem l d islamic) (hy umalquraDate))
                         (hm umalquraDate - 1))
           in Inr (validDate
                \<lparr>S_M := hm umalquraDate - 1, S_C_M := Some (hm umalquraDate - 1),
                 S_D := hd_uq umalquraDate, S_C_D := Some (hd_uq umalquraDate),
                 S_y := hy umalquraDate, S_C_y := Some (hy umalquraDate),
                 S_G_D := Some (gd gregoryDate), S_G_M := Some (gm gregoryDate),
                 S_G_y := Some (gy gregoryDate),
                 S_W := dayOfWeek umalquraDate\<rparr>)))"

text \<open>
  \<^verbatim>\<open>getDayjs(date, calendar)\<close>: \<^verbatim>\<open>undefined\<close> becomes \<^verbatim>\<open>new Date()\<close>; in islamic mode a date
  already tagged islamic is returned as it is.
\<close>

definition getDayjs :: "lib \<Rightarrow> DateType \<Rightarrow> CalendarType \<Rightarrow> error + Dayjs" where
  "getDayjs l date0 calendar =
     (let date = (if date0 = Undefined then JsDate (now_ms l) else date0)
      in if calendar = islamic
         then (case date of
                 Dj d \<Rightarrow> if S_C d = islamic then Inr d else adjustDayjsHijriDate l date None
               | _ \<Rightarrow> adjustDayjsHijriDate l date None)
         else dayjs l calendar date)"

text \<open>\<^verbatim>\<open>areDatesOnSameDay(a, b, calendar)\<close>.\<close>

definition areDatesOnSameDay :: "lib \<Rightarrow> DateType \<Rightarrow> DateType \<Rightarrow> CalendarType \<Rightarrow> error + bool" where
  "areDatesOnSameDay l a b calendar =
     (if \<not> truthy a \<or> \<not> truthy b then Inr False
      else ebind (getDayjs l a calendar) (\<lambda>da.
           ebind (getDayjs l b calendar) (\<lambda>db.
           Inr (format_DATE da = format_DATE db))))"

text \<open>
  \<^verbatim>\<open>isDateDisabled(date, {minDate, maxDate, enabledDates, disabledDates, calendar})\<close>.
  A rule is an array of dates or a function; an absent rule is \<open>None\<close>, and an array, even
  an empty one, is truthy. \<open>opt_calendar\<close> defaults to gregory.
\<close>

datatype DateRule = DateList "DateType list" | DateFn "DateType \<Rightarrow> bool"

record DisabledOptions =
  minDate :: DateType
  maxDate :: DateType
  enabledDates :: "DateRule option"
  disabledDates :: "DateRule option"
  opt_calendar :: "CalendarType option"

text \<open>\<^verbatim>\<open>xs.some(p)\<close> stops at the first element that matches.\<close>

fun some_e :: "('a \<Rightarrow> error + bool) \<Rightarrow> 'a list \<Rightarrow> error + bool" where
  "some_e p [] = Inr False"
| "some_e p (x # xs) = ebind (p x) (\<lambda>b. if b then Inr True else some_e p xs)"

definition isDateDisabled :: "lib \<Rightarrow> Dayjs \<Rightarrow> DisabledOptions \<Rightarrow> error + bool" where
  "isDateDisabled l date opts =
     (let calendar = (case opt_calendar opts of None \<Rightarrow> gregory | Some c \<Rightarrow> c)
      in ebind (if truthy (minDate opts)
                then ebind (getDayjs l (minDate opts) calendar)
                       (\<lambda>mn. Inr (isBefore date (startOf_day mn)))
                else Inr False) (\<lambda>below.
         if below then Inr True
         else ebind (if truthy (maxDate opts)
                     then ebind (getDayjs l (maxDate opts) calendar)
                            (\<lambda>mx. Inr (isAfter date (endOf_day mx)))
                     else Inr False) (\<lambda>above.
         if above then Inr True
         else (case enabledDates opts of
                 Some (DateList ds) \<Rightarrow>
                   ebind (some_e (\<lambda>enabledDate. areDatesOnSameDay l (Dj date) enabledDate calendar) ds)
                     (\<lambda>isEnabled. Inr (\<not> isEnabled))
               | Some (DateFn f) \<Rightarrow> Inr (\<not> f (Dj date))
               | None \<Rightarrow>
                   (case disabledDates opts of
                      Some (DateList ds) \<Rightarrow>
                        some_e (\<lambda>disabledDate. areDatesOnSameDay l (Dj date) disabledDate calendar) ds
                    | Some (DateFn f) \<Rightarrow> Inr (f (Dj date))
                    | None \<Rightarrow> Inr False)))))"

text \<open>\<^verbatim>\<open>getDaysInHijriMonth(date)\<close>: probes whether day 30 of the month exists.\<close>

definition getDaysInHijriMonth :: "lib \<Rightarrow> Dayjs \<Rightarrow> int" where
  "getDaysInHijriMonth l date =
     (let lastDay = umalqura_hijri l (S_y date) (S_M date + 1) 30
      in if hd_uq lastDay = 30 then 30 else 29)"

text \<open>JavaScript's \<^verbatim>\<open>%\<close>: the remainder has the sign of the dividend.\<close>

definition js_rem :: "int \<Rightarrow> int \<Rightarrow> int" where
  "js_rem a b = (if a < 0 then - ((- a) mod \<bar>b\<bar>) else a mod \<bar>b\<bar>)"

record MonthCounts =
  prevMonthDays :: int
  prevMonthOffset :: int
  daysInCurrentMonth :: int
  daysInNextMonth :: int
  fullDaysInMonth :: int

text \<open>
  \<^verbatim>\<open>getDaysInMonth(date, showOutsideDays, firstDayOfWeek, calendar)\<close>. Where the source
  computes a dayjs result first and replaces it in islamic mode, the model branches.
\<close>

definition getDaysInMonth :: "lib \<Rightarrow> DateType \<Rightarrow> bool \<Rightarrow> int \<Rightarrow> CalendarType \<Rightarrow> error + MonthCounts" where
  "getDaysInMonth l date showOutsideDays firstDayOfWeek calendar =
     ebind (getDayjs l date calendar) (\<lambda>currentDate.
       let daysInCurrentMonth0 =
             (if calendar = islamic then getDaysInHijriMonth l currentDate
              else daysInMonth l currentDate);
           prevMonthDays0 =
             (if calendar = islamic
              then getDaysInHijriMonth l (set_month l currentDate (S_M currentDate - 1))
              else daysInMonth l (add_month l currentDate (- 1)));
           firstDay = set_date l currentDate (1 - firstDayOfWeek);
           prevMonthOffset0 =
             (if calendar = islamic
              then dayOfWeek (umalqura_hijri l (S_y currentDate) (S_M currentDate + 1) 1)
              else js_rem (S_W firstDay) 7);
           daysInPrevMonth = (if showOutsideDays then prevMonthOffset0 else 0);
           monthDaysOffset = prevMonthOffset0 + daysInCurrentMonth0;
           daysInNextMonth0 =
             (if showOutsideDays
              then (if monthDaysOffset > 35 then 42 - monthDaysOffset else 35 - monthDaysOffset)
              else 0);
           fullDaysInMonth0 = daysInPrevMonth + daysInCurrentMonth0 + daysInNextMonth0
       in Inr \<lparr>prevMonthDays = prevMonthDays0, prevMonthOffset = prevMonthOffset0,
                daysInCurrentMonth = daysInCurrentMonth0, daysInNextMonth = daysInNextMonth0,
                fullDaysInMonth = fullDaysInMonth0\<rparr>)"

text \<open>
  \<^verbatim>\<open>formatNumber(value, numerals)\<close>: the decimal digits of the number, each replaced by the
  glyph of the numeral system (the table \<^verbatim>\<open>numeralSystems\<close> is not in the repository, so
  the glyph of each digit is a parameter); an empty glyph leaves the digit.
\<close>

type_synonym Numerals = "nat \<Rightarrow> string"

fun digits_of :: "nat \<Rightarrow> nat list" where
  "digits_of n = (if n < 10 then [n] else digits_of (n div 10) @ [n mod 10])"

definition digit_char :: "nat \<Rightarrow> char" where
  "digit_char k = char_of (48 + k)"

definition replaceDigits :: "nat list \<Rightarrow> Numerals \<Rightarrow> string" where
  "replaceDigits ds numerals =
     concat (map (\<lambda>k. if numerals k = [] then [digit_char k] else numerals k) ds)"

definition formatNumber :: "int \<Rightarrow> Numerals \<Rightarrow> string" where
  "formatNumber v numerals =
     (if v < 0 then CHR ''-'' # replaceDigits (digits_of (nat (- v))) numerals
      else replaceDigits (digits_of (nat v)) numerals)"

definition getPrevHijriDate :: "lib \<Rightarrow> Dayjs \<Rightarrow> int \<Rightarrow> error + Dayjs" where
  "getPrevHijriDate l date dateDay =
     (let prevMonthIndex = (if S_M date = 0 then 11 else S_M date - 1);
          year = (if S_M date = 0 then S_y date - 1 else S_y date);
          hijriDate = umalqura_hijri l year (prevMonthIndex + 1) dateDay
      in adjustDayjsHijriDate l (Dj date) (Some hijriDate))"

definition getNextHijriDate :: "lib \<Rightarrow> Dayjs \<Rightarrow> int \<Rightarrow> error + Dayjs" where
  "getNextHijriDate l date dateDay =
     (let nextMonthIndex = (if S_M date = 11 then 0 else S_M date + 1);
          year = (if S_M date = 11 then S_y date + 1 else S_y date);
          hijriDate = umalqura_hijri l year (nextMonthIndex + 1) dateDay
      in adjustDayjsHijriDate l (Dj date) (Some hijriDate))"

definition getStartOfHijriWeek :: "lib \<Rightarrow> Dayjs \<Rightarrow> error + Dayjs" where
  "getStartOfHijriWeek l date =
     (let hijriDate = umalqura_hijri l (S_y date) (S_M date + 1) (S_D date)
      in adjustDayjsHijriDate l (Dj date) (Some (umalqura_startOfWeek l hijriDate)))"

record CalendarDay =
  day_text :: string
  day_number :: int
  day_date :: Dayjs
  isDisabled :: bool
  isCurrentMonth :: bool
  dayOfMonth :: int
  isStartOfWeek :: bool
  isEndOfWeek :: bool

record GridOptions =
  g_minDate :: DateType
  g_maxDate :: DateType
  g_firstDayOfWeek :: int
  g_enabledDates :: "DateRule option"
  g_disabledDates :: "DateRule option"
  g_numerals :: Numerals
  g_calendar :: CalendarType

text \<open>
  \<^verbatim>\<open>generateCalendarDay\<close>; its arguments \<^verbatim>\<open>minDate\<close> to \<^verbatim>\<open>calendar\<close>, which
  \<^verbatim>\<open>getMonthDays\<close> passes on unchanged, are the record \<open>g\<close>. The call of
  \<^verbatim>\<open>isDateDisabled\<close> passes no calendar.
\<close>

definition generateCalendarDay ::
    "lib \<Rightarrow> GridOptions \<Rightarrow> int \<Rightarrow> Dayjs \<Rightarrow> bool \<Rightarrow> int \<Rightarrow> error + CalendarDay" where
  "generateCalendarDay l g number date isCurrentMonth0 dayOfMonth0 =
     ebind (if g_calendar g = islamic then getStartOfHijriWeek l date
            else ebind (getDayjs l (Dj date) (g_calendar g))
                   (\<lambda>d. Inr (add_day l (startOf_week l d) (g_firstDayOfWeek g)))) (\<lambda>startOfWeek.
     ebind (isDateDisabled l date
              \<lparr>minDate = g_minDate g, maxDate = g_maxDate g,
               enabledDates = g_enabledDates g, disabledDates = g_disabledDates g,
               opt_calendar = None\<rparr>) (\<lambda>disabled.
     Inr \<lparr>day_text = formatNumber number (g_numerals g),
          day_number = number,
          day_date = date,
          isDisabled = disabled,
          isCurrentMonth = isCurrentMonth0,
          dayOfMonth = dayOfMonth0,
          isStartOfWeek = isSame_day date startOfWeek,
          isEndOfWeek = (S_W date = js_rem (g_firstDayOfWeek g + 6) 7)\<rparr>))"

text \<open>
  \<^verbatim>\<open>Array.from({length: n}, f)\<close> is \<open>f\<close> on the indices below \<open>n\<close>, and empty for a
  negative \<open>n\<close>; \<^verbatim>\<open>Array(n)\<close> raises a RangeError for a negative \<open>n\<close>. A callback
  that raises ends the whole call.
\<close>

fun mapM_e :: "('a \<Rightarrow> error + 'b) \<Rightarrow> 'a list \<Rightarrow> error + 'b list" where
  "mapM_e f [] = Inr []"
| "mapM_e f (x # xs) = ebind (f x) (\<lambda>y. ebind (mapM_e f xs) (\<lambda>ys. Inr (y # ys)))"

definition array_from :: "int \<Rightarrow> (int \<Rightarrow> error + 'b) \<Rightarrow> error + 'b list" where
  "array_from n f = mapM_e f (map int [0 ..< nat n])"

text \<open>
  \<^verbatim>\<open>getMonthDays\<close>. A cell is \<open>Some\<close> day, or \<open>None\<close> for the \<^verbatim>\<open>null\<close> placeholders.
\<close>

definition getMonthDays ::
    "lib \<Rightarrow> DateType \<Rightarrow> bool \<Rightarrow> GridOptions \<Rightarrow> int \<Rightarrow> int \<Rightarrow> int \<Rightarrow> int
      \<Rightarrow> error + CalendarDay option list" where
  "getMonthDays l datetime showOutsideDays g prevMonthDays0 prevMonthOffset0
       daysInCurrentMonth0 daysInNextMonth0 =
     ebind (getDayjs l datetime (g_calendar g)) (\<lambda>date.
     ebind (if showOutsideDays
            then array_from prevMonthOffset0 (\<lambda>index.
                   let prevDay = index + (prevMonthDays0 - prevMonthOffset0 + 1)
                   in ebind (if g_calendar g = islamic then getPrevHijriDate l date prevDay
                             else Inr (set_date l (set_month l date (S_M date - 1)) prevDay))
                        (\<lambda>thisDay.
                      ebind (generateCalendarDay l g prevDay thisDay False (index + 1))
                        (\<lambda>c. Inr (Some c))))
            else if prevMonthOffset0 < 0 then Inl RangeError
            else Inr (replicate (nat prevMonthOffset0) None)) (\<lambda>prevDays.
     ebind (array_from daysInCurrentMonth0 (\<lambda>index.
              let day = index + 1
              in ebind (if g_calendar g = islamic
                        then adjustDayjsHijriDate l (Dj date)
                               (Some (umalqura_hijri l (S_y date) (S_M date + 1) day))
                        else Inr (set_date l date day))
                   (\<lambda>thisDay.
                 ebind (generateCalendarDay l g day thisDay True (prevMonthOffset0 + day))
                   (\<lambda>c. Inr (Some c))))) (\<lambda>currentDays.
     ebind (array_from daysInNextMonth0 (\<lambda>index.
              let day = index + 1
              in ebind (if g_calendar g = islamic then getNextHijriDate l date day
                        else Inr (set_date l (set_month l date (S_M date + 1)) day))
                   (\<lambda>thisDay.
                 ebind (generateCalendarDay l g day thisDay False
                          (daysInCurrentMonth0 + prevMonthOffset0 + day))
                   (\<lambda>c. Inr (Some c))))) (\<lambda>nextDays.
     Inr (prevDays @ currentDays @ nextDays)))))"





section \<open>datetime-picker.tsx: onSelectDate\<close>





















section \<open>A sample library\<close>

text \<open>
  A concrete \<open>lib\<close> for the examples. Its Umm al-Qura table is anchored at
  1 Ramadan 1446 = Saturday 2025-03-01 (day 20148 since the epoch); it agrees with the
  published calendar from Rajab to Shawwal 1446 and continues with months of 29 and 30
  days. Its Jalali calendar is a year of 365 days anchored at 1 Farvardin 1404 =
  2025-03-21 (day 20168). The clock stands at 2025-03-10 12:00.
\<close>

definition demo_month_start :: "int \<Rightarrow> int" where
  "demo_month_start k = 20148 + 29 * k + (if k \<le> 0 then (k + 1) div 2 else k div 2)"

definition demo_month_index :: "int \<Rightarrow> int" where
  "demo_month_index n =
     (let k = ((n - 20148) * 2) div 59
      in if demo_month_start (k + 1) \<le> n then k + 1
         else if n < demo_month_start k then k - 1
         else k)"

definition demo_umalqura_day :: "int \<Rightarrow> UmAlQura" where
  "demo_umalqura_day n =
     (let k = demo_month_index n
      in \<lparr>hy = 1446 + (k + 8) div 12, hm = (k + 8) mod 12 + 1,
          hd_uq = n - demo_month_start k + 1, dayOfWeek = (n + 4) mod 7\<rparr>)"

definition demo_hijri_day :: "int \<Rightarrow> int \<Rightarrow> int \<Rightarrow> int" where
  "demo_hijri_day y m d = demo_month_start ((y - 1446) * 12 + (m - 9)) + (d - 1)"

definition demo_hijri_sys :: calsys where
  "demo_hijri_sys =
     \<lparr>of_days = (\<lambda>n. let u = demo_umalqura_day n in (hy u, hm u - 1, hd_uq u)),
      to_days = (\<lambda>y M D. demo_hijri_day y (M + 1) D),
      month_len = (\<lambda>y M. demo_hijri_day y (M + 2) 1 - demo_hijri_day y (M + 1) 1)\<rparr>"

definition demo_jalali_sys :: calsys where
  "demo_jalali_sys =
     \<lparr>of_days = (\<lambda>n. let k = n - 20168; r = k mod 365
                     in (1404 + k div 365,
                         if r < 186 then r div 31 else 6 + (r - 186) div 30,
                         if r < 186 then r mod 31 + 1 else (r - 186) mod 30 + 1)),
      to_days = (\<lambda>y M D. let y1 = y + M div 12; M1 = M mod 12
                          in 20168 + (y1 - 1404) * 365
                             + (if M1 < 6 then 31 * M1 else 186 + 30 * (M1 - 6)) + (D - 1)),
      month_len = (\<lambda>y M. let M1 = M mod 12
                          in if M1 < 6 then 31 else if M1 < 11 then 30 else 29)\<rparr>"

definition demo_lib :: lib where
  "demo_lib =
     \<lparr>now_ms = 1741608000000,
      weekStart = 0,
      jalali_sys = demo_jalali_sys,
      hijri_sys = demo_hijri_sys,
      umalqura_date = (\<lambda>t. demo_umalqura_day (t div MS_DAY)),
      umalqura_hijri = (\<lambda>y m d. demo_umalqura_day (demo_hijri_day y m d)),
      hijriToGregorian =
        (\<lambda>y m d. let c = civil_from_days (demo_hijri_day y m d)
                  in \<lparr>gy = fst c, gm = fst (snd c), gd = snd (snd c)\<rparr>),
      umalqura_startOfWeek =
        (\<lambda>u. let n = demo_hijri_day (hy u) (hm u) (hd_uq u)
              in demo_umalqura_day (n - (n + 4) mod 7))\<rparr>"

text \<open>An instant at the start of a Gregorian day, and a plain dayjs object for it.\<close>

definition at_ymd :: "int \<Rightarrow> int \<Rightarrow> int \<Rightarrow> int" where
  "at_ymd y m d = days_from_civil y (m - 1) d * MS_DAY"

definition latn :: Numerals where
  "latn k = [digit_char k]"



definition demo_grid :: "CalendarType \<Rightarrow> int \<Rightarrow> GridOptions" where
  "demo_grid c f =
     \<lparr>g_minDate = Undefined, g_maxDate = Undefined, g_firstDayOfWeek = f,
      g_enabledDates = None, g_disabledDates = None, g_numerals = latn, g_calendar = c\<rparr>"


section \<open>Statements of the specification\<close>

text \<open>
  The date predicate as the specification words it, to be compared with
  \<open>isDateDisabled\<close>: \<open>out_of_bounds\<close> is "below minDate's start of day or above maxDate's
  end of day", \<open>rule_matches\<close> is "membership in the explicit list by same-day comparison,
  or the predicate returns true".
\<close>

definition rule_calendar :: "DisabledOptions \<Rightarrow> CalendarType" where
  "rule_calendar opts = (case opt_calendar opts of None \<Rightarrow> gregory | Some c \<Rightarrow> c)"

definition out_of_bounds :: "lib \<Rightarrow> Dayjs \<Rightarrow> DisabledOptions \<Rightarrow> bool" where
  "out_of_bounds l date opts =
     ((truthy (minDate opts) \<and>
        (case getDayjs l (minDate opts) (rule_calendar opts) of
           Inr mn \<Rightarrow> isBefore date (startOf_day mn) | Inl e \<Rightarrow> False)) \<or>
      (truthy (maxDate opts) \<and>
        (case getDayjs l (maxDate opts) (rule_calendar opts) of
           Inr mx \<Rightarrow> isAfter date (endOf_day mx) | Inl e \<Rightarrow> False)))"

definition rule_matches :: "lib \<Rightarrow> Dayjs \<Rightarrow> DateRule \<Rightarrow> CalendarType \<Rightarrow> bool" where
  "rule_matches l date r c =
     (case r of
        DateList ds \<Rightarrow> list_ex (\<lambda>e. areDatesOnSameDay l (Dj date) e c = Inr True) ds
      | DateFn f \<Rightarrow> f (Dj date))"









text \<open>
  What the grid theorems ask of the library: a Jalali month has 29 to 31 days, a month of
  the Hijri plugin 29 or 30, and the Umm al-Qura weekday is a number from 0 to 6.
\<close>

definition wf_lib :: "lib \<Rightarrow> bool" where
  "wf_lib l =
     ((\<forall>y M. 29 \<le> month_len (jalali_sys l) y M \<and> month_len (jalali_sys l) y M \<le> 31) \<and>
      (\<forall>y M. 29 \<le> month_len (hijri_sys l) y M \<and> month_len (hijri_sys l) y M \<le> 30) \<and>
      (\<forall>y m d. 0 \<le> dayOfWeek (umalqura_hijri l y m d) \<and> dayOfWeek (umalqura_hijri l y m d) \<le> 6))"

section \<open>Basic facts\<close>

lemma ebind_Inr [simp]: "ebind (Inr x) f = f x"
  by (simp add: ebind_def)

lemma ebind_Inl [simp]: "ebind (Inl e) f = Inl e"
  by (simp add: ebind_def)

lemma S_C_dayjs_init [simp]: "S_C (dayjs_init l c t) = c"
  by (simp add: dayjs_init_def Let_def)

lemma S_C_at_day [simp]: "S_C (at_day l d n) = S_C d"
  by (simp add: at_day_def)

lemma S_C_set_date [simp]: "S_C (set_date l d n) = S_C d"
  by (simp add: set_date_def)

lemma S_C_set_month [simp]: "S_C (set_month l d n) = S_C d"
  by (simp add: set_month_def Let_def)

lemma S_C_set_year [simp]: "S_C (set_year l d n) = S_C d"
  by (simp add: set_year_def Let_def)

lemma S_C_toCalendarSystem [simp]: "S_C (toCalendarSystem l d c) = c"
  by (simp add: toCalendarSystem_def)

text \<open>Whatever \<open>adjustDayjsHijriDate\<close> returns is tagged islamic.\<close>

lemma adjust_tagged: "adjustDayjsHijriDate l x h = Inr r \<Longrightarrow> S_C r = islamic"
  by (cases x) (auto simp: adjustDayjsHijriDate_def Let_def)

lemma adjust_truthy: "truthy x \<Longrightarrow> \<exists>r. adjustDayjsHijriDate l x h = Inr r"
  by (cases x) (auto simp: adjustDayjsHijriDate_def Let_def truthy_def)

lemma dayjs_total: "x \<noteq> Null \<Longrightarrow> \<exists>r. dayjs l c x = Inr r"
  by (cases x) (auto simp: dayjs_def)

text \<open>\<open>getDayjs\<close> fails on \<^verbatim>\<open>null\<close> only.\<close>

lemma getDayjs_total: "x \<noteq> Null \<Longrightarrow> \<exists>r. getDayjs l x c = Inr r"
  using adjust_truthy [of "JsDate (now_ms l)" l None] adjust_truthy [of x l None]
    dayjs_total [of x l c] dayjs_total [of "JsDate (now_ms l)" l c]
  by (cases x) (auto simp: getDayjs_def Let_def truthy_def split: DateType.splits)

lemma getDayjs_truthy_cases:
  assumes "truthy x"
  obtains r where "getDayjs l x c = Inr r"
  using getDayjs_total [of x l c] assms by (auto simp: truthy_def)

lemma getDayjs_islamic_tagged: "getDayjs l x islamic = Inr r \<Longrightarrow> S_C r = islamic"
  by (auto simp: getDayjs_def Let_def split: DateType.splits if_splits dest: adjust_tagged)

lemma getDayjs_fixed: "S_C r = islamic \<Longrightarrow> getDayjs l (Dj r) islamic = Inr r"
  by (simp add: getDayjs_def)

text \<open>\<open>areDatesOnSameDay\<close> never fails: it converts only what it has found truthy.\<close>

lemma areDatesOnSameDay_total: "\<exists>r. areDatesOnSameDay l a b c = Inr r"
proof (cases "truthy a \<and> truthy b")
  case True
  then obtain x y where "getDayjs l a c = Inr x" "getDayjs l b c = Inr y"
    using getDayjs_total [of a l c] getDayjs_total [of b l c] by (auto simp: truthy_def)
  with True show ?thesis by (simp add: areDatesOnSameDay_def)
next
  case False
  then show ?thesis by (auto simp: areDatesOnSameDay_def)
qed

lemma some_e_total:
  assumes "\<And>x. \<exists>r. p x = Inr r"
  shows "some_e p xs = Inr (list_ex (\<lambda>x. p x = Inr True) xs)"
proof (induction xs)
  case Nil
  show ?case by simp
next
  case (Cons x xs)
  obtain r where r: "p x = Inr r" using assms by blast
  show ?case using Cons r by (cases r) simp_all
qed

subsection \<open>The grid never fails on a date\<close>

lemma isDateDisabled_total: "\<exists>b. isDateDisabled l date opts = Inr b"
proof -
  let ?c = "case opt_calendar opts of None \<Rightarrow> gregory | Some c \<Rightarrow> c"
  have mn: "\<exists>b. (if truthy (minDate opts)
             then ebind (getDayjs l (minDate opts) ?c) (\<lambda>mn. Inr (isBefore date (startOf_day mn)))
             else Inr False) = Inr b"
  proof (cases "truthy (minDate opts)")
    case True
    then obtain x where "getDayjs l (minDate opts) ?c = Inr x" by (rule getDayjs_truthy_cases)
    with True show ?thesis by simp
  next
    case False
    then show ?thesis by auto
  qed
  have mx: "\<exists>b. (if truthy (maxDate opts)
             then ebind (getDayjs l (maxDate opts) ?c) (\<lambda>mx. Inr (isAfter date (endOf_day mx)))
             else Inr False) = Inr b"
  proof (cases "truthy (maxDate opts)")
    case True
    then obtain x where "getDayjs l (maxDate opts) ?c = Inr x" by (rule getDayjs_truthy_cases)
    with True show ?thesis by simp
  next
    case False
    then show ?thesis by auto
  qed
  have rules: "\<exists>b. (case enabledDates opts of
                 Some (DateList ds) \<Rightarrow>
                   ebind (some_e (\<lambda>enabledDate. areDatesOnSameDay l (Dj date) enabledDate ?c) ds)
                     (\<lambda>isEnabled. Inr (\<not> isEnabled))
               | Some (DateFn f) \<Rightarrow> Inr (\<not> f (Dj date))
               | None \<Rightarrow>
                   (case disabledDates opts of
                      Some (DateList ds) \<Rightarrow>
                        some_e (\<lambda>disabledDate. areDatesOnSameDay l (Dj date) disabledDate ?c) ds
                    | Some (DateFn f) \<Rightarrow> Inr (f (Dj date))
                    | None \<Rightarrow> Inr False)) = Inr b"
    by (auto simp: some_e_total [OF areDatesOnSameDay_total] split: option.splits DateRule.splits)
  from mn mx rules show ?thesis
    unfolding isDateDisabled_def Let_def by (auto split: if_splits)
qed

lemma generateCalendarDay_total: "\<exists>c. generateCalendarDay l g n d b k = Inr c"
proof -
  obtain w where w: "(if g_calendar g = islamic then getStartOfHijriWeek l d
            else ebind (getDayjs l (Dj d) (g_calendar g))
                   (\<lambda>d. Inr (add_day l (startOf_week l d) (g_firstDayOfWeek g)))) = Inr w"
  proof (cases "g_calendar g = islamic")
    case True
    obtain r where "adjustDayjsHijriDate l (Dj d)
        (Some (umalqura_startOfWeek l (umalqura_hijri l (S_y d) (S_M d + 1) (S_D d)))) = Inr r"
      using adjust_truthy [of "Dj d"] by (auto simp: truthy_def)
    with True that show ?thesis by (simp add: getStartOfHijriWeek_def Let_def)
  next
    case False
    obtain r where "getDayjs l (Dj d) (g_calendar g) = Inr r"
      using getDayjs_total [of "Dj d"] by auto
    with False that show ?thesis by simp
  qed
  obtain x where x: "isDateDisabled l d
              \<lparr>minDate = g_minDate g, maxDate = g_maxDate g,
               enabledDates = g_enabledDates g, disabledDates = g_disabledDates g,
               opt_calendar = None\<rparr> = Inr x"
    using isDateDisabled_total by blast
  show ?thesis unfolding generateCalendarDay_def w x by simp
qed

lemma mapM_e_Some:
  assumes "\<And>x. \<exists>c. f x = Inr (Some c)"
  shows "\<exists>cs. mapM_e f xs = Inr (map Some cs) \<and> length cs = length xs"
proof (induction xs)
  case Nil
  show ?case by simp
next
  case (Cons x xs)
  obtain c where c: "f x = Inr (Some c)" using assms by blast
  obtain cs where cs: "mapM_e f xs = Inr (map Some cs)" "length cs = length xs"
    using Cons by blast
  have "mapM_e f (x # xs) = Inr (map Some (c # cs))" using c cs by simp
  moreover have "length (c # cs) = length (x # xs)" using cs by simp
  ultimately show ?case by blast
qed

lemma array_from_Some:
  assumes "\<And>i. \<exists>c. f i = Inr (Some c)"
  shows "\<exists>cs. array_from n f = Inr (map Some cs) \<and> length cs = nat n"
  using mapM_e_Some [of f "map int [0 ..< nat n]", OF assms] by (simp add: array_from_def)

lemma gregory_month_len_bounds: "28 \<le> gregory_month_len y M \<and> gregory_month_len y M \<le> 31"
  by (simp add: gregory_month_len_def Let_def)

lemma daysInMonth_bounds:
  assumes "wf_lib l"
  shows "28 \<le> daysInMonth l d \<and> daysInMonth l d \<le> 31"
proof (cases "S_C d")
  case gregory
  then show ?thesis
    using gregory_month_len_bounds [of "S_y d" "S_M d"]
    by (simp add: daysInMonth_def sys_def gregory_sys_def)
next
  case islamic
  from assms have "29 \<le> month_len (hijri_sys l) (S_y d) (S_M d)"
    "month_len (hijri_sys l) (S_y d) (S_M d) \<le> 30"
    by (simp_all add: wf_lib_def)
  with islamic show ?thesis by (simp add: daysInMonth_def sys_def)
next
  case jalali
  from assms have "29 \<le> month_len (jalali_sys l) (S_y d) (S_M d)"
    "month_len (jalali_sys l) (S_y d) (S_M d) \<le> 31"
    by (simp_all add: wf_lib_def)
  with jalali show ?thesis by (simp add: daysInMonth_def sys_def)
qed

lemma getDaysInHijriMonth_bounds:
  "getDaysInHijriMonth l d = 29 \<or> getDaysInHijriMonth l d = 30"
  by (simp add: getDaysInHijriMonth_def Let_def)

lemma S_W_dayjs_init: "0 \<le> S_W (dayjs_init l c t) \<and> S_W (dayjs_init l c t) \<le> 6"
  by (simp add: dayjs_init_def Let_def)

lemma S_W_set_date: "0 \<le> S_W (set_date l d n) \<and> S_W (set_date l d n) \<le> 6"
  by (simp add: set_date_def at_day_def S_W_dayjs_init)

lemma js_rem_small: "0 \<le> a \<Longrightarrow> a \<le> 6 \<Longrightarrow> js_rem a 7 = a"
  by (simp add: js_rem_def)

lemma getDaysInMonth_counts:
  assumes wf: "wf_lib l" and ok: "date \<noteq> Null"
  obtains c where "getDaysInMonth l date s f cal = Inr c"
    and "0 \<le> prevMonthOffset c" and "prevMonthOffset c \<le> 6"
    and "28 \<le> daysInCurrentMonth c" and "daysInCurrentMonth c \<le> 31"
    and "daysInNextMonth c =
           (if s then (if prevMonthOffset c + daysInCurrentMonth c > 35
                       then 42 - (prevMonthOffset c + daysInCurrentMonth c)
                       else 35 - (prevMonthOffset c + daysInCurrentMonth c))
            else 0)"
proof -
  obtain cur where cur: "getDayjs l date cal = Inr cur"
    using getDayjs_total [OF ok] by blast
  define off where "off =
     (if cal = islamic then dayOfWeek (umalqura_hijri l (S_y cur) (S_M cur + 1) 1)
      else js_rem (S_W (set_date l cur (1 - f))) 7)"
  define dim where "dim =
     (if cal = islamic then getDaysInHijriMonth l cur else daysInMonth l cur)"
  have off: "0 \<le> off \<and> off \<le> 6"
  proof (cases "cal = islamic")
    case True
    with wf show ?thesis by (simp add: off_def wf_lib_def)
  next
    case False
    then show ?thesis
      using S_W_set_date [of l cur "1 - f"] by (simp add: off_def js_rem_small)
  qed
  have dim: "28 \<le> dim \<and> dim \<le> 31"
    using daysInMonth_bounds [OF wf, of cur] getDaysInHijriMonth_bounds [of l cur]
    by (auto simp: dim_def)
  obtain c where c: "getDaysInMonth l date s f cal = Inr c"
    and "prevMonthOffset c = off" and "daysInCurrentMonth c = dim"
    and "daysInNextMonth c =
           (if s then (if off + dim > 35 then 42 - (off + dim) else 35 - (off + dim)) else 0)"
    using cur by (simp add: getDaysInMonth_def Let_def off_def dim_def)
  with off dim that show ?thesis by simp
qed

lemma adjust_Dj_total: "\<exists>r. adjustDayjsHijriDate l (Dj d) h = Inr r"
  using adjust_truthy [of "Dj d"] by (simp add: truthy_def)

lemma getPrevHijriDate_total: "\<exists>r. getPrevHijriDate l d n = Inr r"
  by (simp add: getPrevHijriDate_def Let_def adjust_Dj_total)

lemma getNextHijriDate_total: "\<exists>r. getNextHijriDate l d n = Inr r"
  by (simp add: getNextHijriDate_def Let_def adjust_Dj_total)

lemma getMonthDays_shape:
  assumes ok: "date \<noteq> Null" and off: "s \<or> 0 \<le> off"
  shows "\<exists>ps cs ns. getMonthDays l date s g pmd off dim nxt = Inr (ps @ map Some cs @ map Some ns)
           \<and> length ps = nat off \<and> length cs = nat dim \<and> length ns = nat nxt
           \<and> (\<not> s \<longrightarrow> ps = replicate (nat off) None)"
proof -
  obtain cur where cur: "getDayjs l date (g_calendar g) = Inr cur"
    using getDayjs_total [OF ok] by blast
  let ?prev = "\<lambda>index.
                   let prevDay = index + (pmd - off + 1)
                   in ebind (if g_calendar g = islamic then getPrevHijriDate l cur prevDay
                             else Inr (set_date l (set_month l cur (S_M cur - 1)) prevDay))
                        (\<lambda>thisDay.
                      ebind (generateCalendarDay l g prevDay thisDay False (index + 1))
                        (\<lambda>c. Inr (Some c)))"
  let ?curr = "\<lambda>index.
              let day = index + 1
              in ebind (if g_calendar g = islamic
                        then adjustDayjsHijriDate l (Dj cur)
                               (Some (umalqura_hijri l (S_y cur) (S_M cur + 1) day))
                        else Inr (set_date l cur day))
                   (\<lambda>thisDay.
                 ebind (generateCalendarDay l g day thisDay True (off + day))
                   (\<lambda>c. Inr (Some c)))"
  let ?next = "\<lambda>index.
              let day = index + 1
              in ebind (if g_calendar g = islamic then getNextHijriDate l cur day
                        else Inr (set_date l (set_month l cur (S_M cur + 1)) day))
                   (\<lambda>thisDay.
                 ebind (generateCalendarDay l g day thisDay False (dim + off + day))
                   (\<lambda>c. Inr (Some c)))"
  have p: "\<And>i. \<exists>c. ?prev i = Inr (Some c)"
  proof -
    fix i
    have "\<exists>t. (if g_calendar g = islamic then getPrevHijriDate l cur (i + (pmd - off + 1))
                     else Inr (set_date l (set_month l cur (S_M cur - 1)) (i + (pmd - off + 1))))
                    = Inr t"
      by (simp add: getPrevHijriDate_total)
    then obtain t where "(if g_calendar g = islamic then getPrevHijriDate l cur (i + (pmd - off + 1))
                     else Inr (set_date l (set_month l cur (S_M cur - 1)) (i + (pmd - off + 1))))
                    = Inr t" ..
    moreover obtain c where
      "generateCalendarDay l g (i + (pmd - off + 1)) t False (i + 1) = Inr c"
      using generateCalendarDay_total by blast
    ultimately show "\<exists>c. ?prev i = Inr (Some c)" by (simp add: Let_def)
  qed
  have c: "\<And>i. \<exists>c. ?curr i = Inr (Some c)"
  proof -
    fix i
    have "\<exists>t. (if g_calendar g = islamic
                        then adjustDayjsHijriDate l (Dj cur)
                               (Some (umalqura_hijri l (S_y cur) (S_M cur + 1) (i + 1)))
                        else Inr (set_date l cur (i + 1))) = Inr t"
      by (simp add: adjust_Dj_total)
    then obtain t where "(if g_calendar g = islamic
                        then adjustDayjsHijriDate l (Dj cur)
                               (Some (umalqura_hijri l (S_y cur) (S_M cur + 1) (i + 1)))
                        else Inr (set_date l cur (i + 1))) = Inr t" ..
    moreover obtain c where "generateCalendarDay l g (i + 1) t True (off + (i + 1)) = Inr c"
      using generateCalendarDay_total by blast
    ultimately show "\<exists>c. ?curr i = Inr (Some c)" by (simp add: Let_def)
  qed
  have n: "\<And>i. \<exists>c. ?next i = Inr (Some c)"
  proof -
    fix i
    have "\<exists>t. (if g_calendar g = islamic then getNextHijriDate l cur (i + 1)
                        else Inr (set_date l (set_month l cur (S_M cur + 1)) (i + 1))) = Inr t"
      by (simp add: getNextHijriDate_total)
    then obtain t where "(if g_calendar g = islamic then getNextHijriDate l cur (i + 1)
                        else Inr (set_date l (set_month l cur (S_M cur + 1)) (i + 1))) = Inr t" ..
    moreover obtain c where
      "generateCalendarDay l g (i + 1) t False (dim + off + (i + 1)) = Inr c"
      using generateCalendarDay_total by blast
    ultimately show "\<exists>c. ?next i = Inr (Some c)" by (simp add: Let_def)
  qed
  obtain pcs where pcs: "array_from off ?prev = Inr (map Some pcs)" "length pcs = nat off"
    using array_from_Some [of ?prev off, OF p] by blast
  obtain cs where cs: "array_from dim ?curr = Inr (map Some cs)" "length cs = nat dim"
    using array_from_Some [of ?curr dim, OF c] by blast
  obtain ns where ns: "array_from nxt ?next = Inr (map Some ns)" "length ns = nat nxt"
    using array_from_Some [of ?next nxt, OF n] by blast
  define ps where "ps = (if s then map Some pcs else replicate (nat off) None)"
  have "getMonthDays l date s g pmd off dim nxt = Inr (ps @ map Some cs @ map Some ns)"
    unfolding getMonthDays_def cur ebind_Inr pcs cs ns using off by (auto simp: ps_def)
  moreover have "length ps = nat off" by (simp add: ps_def pcs)
  moreover have "\<not> s \<longrightarrow> ps = replicate (nat off) None" by (simp add: ps_def)
  ultimately show ?thesis using cs ns by blast
qed

lemma demo_month_len: "29 \<le> demo_month_start (k + 1) - demo_month_start k
    \<and> demo_month_start (k + 1) - demo_month_start k \<le> 30"
  unfolding demo_month_start_def by (auto split: if_splits)

lemma wf_demo_lib: "wf_lib demo_lib"
proof -
  have j: "\<And>y M. 29 \<le> month_len demo_jalali_sys y M \<and> month_len demo_jalali_sys y M \<le> 31"
    by (simp add: demo_jalali_sys_def Let_def)
  have h: "\<And>y M. 29 \<le> month_len demo_hijri_sys y M \<and> month_len demo_hijri_sys y M \<le> 30"
  proof -
    fix y M :: int
    have "(y - 1446) * 12 + (M + 2 - 9) = ((y - 1446) * 12 + (M + 1 - 9)) + 1" by simp
    then show "29 \<le> month_len demo_hijri_sys y M \<and> month_len demo_hijri_sys y M \<le> 30"
      using demo_month_len [of "(y - 1446) * 12 + (M + 1 - 9)"]
      by (simp add: demo_hijri_sys_def demo_hijri_day_def)
  qed
  have w: "\<And>y m d. 0 \<le> dayOfWeek (umalqura_hijri demo_lib y m d)
      \<and> dayOfWeek (umalqura_hijri demo_lib y m d) \<le> 6"
    by (simp add: demo_lib_def demo_umalqura_day_def Let_def)
  show ?thesis
    unfolding wf_lib_def using j h w by (simp add: demo_lib_def)
qed

subsection \<open>The offset of the first day\<close>

text \<open>
  For the Gregorian and the Jalali calendar \<open>getDaysInMonth\<close> rotates the weekday of day 1
  by \<open>firstDayOfWeek\<close>; in islamic mode it returns the Umm al-Qura weekday of day 1 of
  the Hijri month as it is.
\<close>

lemma MS_DAY_pos: "0 < MS_DAY"
  by (simp add: MS_DAY_def)

lemma div_MS_DAY: "(n * MS_DAY + t mod MS_DAY) div MS_DAY = n"
proof -
  have "0 \<le> t mod MS_DAY" "t mod MS_DAY < MS_DAY" using MS_DAY_pos by simp_all
  then have "(t mod MS_DAY) div MS_DAY = 0" by (simp add: div_pos_pos_trivial)
  moreover have "(n * MS_DAY + t mod MS_DAY) div MS_DAY = n + (t mod MS_DAY) div MS_DAY"
    using MS_DAY_pos by (simp only: div_mult_self3 [of MS_DAY n "t mod MS_DAY"])
  ultimately show ?thesis by (simp only: add_0_right)
qed

lemma S_W_set_date_eq:
  "S_W (set_date l d n) = (to_days (sys l (S_C d)) (S_y d) (S_M d) 1 + (n - 1) + 4) mod 7"
  unfolding set_date_def at_day_def dayjs_init_def Let_def
  by (simp only: div_MS_DAY Dayjs.select_convs)

lemma rotate_weekday: "(a - f + 4) mod 7 = ((a + 4) mod 7 - f + 7) mod (7::int)"
proof -
  have "((a + 4) mod 7 - f + 7) mod 7 = ((a + 4) mod 7 - f) mod 7"
    by simp
  also have "\<dots> = (a + 4 - f) mod 7"
    by (simp only: mod_diff_left_eq)
  also have "a + 4 - f = a - f + 4" by simp
  finally show ?thesis by simp
qed

lemma S_W_set_date_rotated:
  "S_W (set_date l cur (1 - f)) = (S_W (set_date l cur 1) - f + 7) mod 7"
proof -
  let ?T = "to_days (sys l (S_C cur)) (S_y cur) (S_M cur) 1"
  have a: "?T + (1 - f - 1) + 4 = ?T - f + 4" by arith
  have b: "?T + (1 - 1) + 4 = ?T + 4" by arith
  have e1: "S_W (set_date l cur (1 - f)) = (?T - f + 4) mod 7"
    by (simp only: S_W_set_date_eq a)
  have e2: "S_W (set_date l cur 1) = (?T + 4) mod 7"
    by (simp only: S_W_set_date_eq b)
  show ?thesis by (simp only: e1 e2 rotate_weekday [of ?T f])
qed

lemma prevMonthOffset_rotated:
  assumes "cal \<noteq> islamic" and "getDayjs l date cal = Inr cur"
  shows "map_sum id prevMonthOffset (getDaysInMonth l date s f cal)
           = Inr ((S_W (set_date l cur 1) - f + 7) mod 7)"
proof -
  have "js_rem (S_W (set_date l cur (1 - f))) 7 = S_W (set_date l cur (1 - f))"
    using S_W_set_date [of l cur "1 - f"] by (simp add: js_rem_small)
  then have "js_rem (S_W (set_date l cur (1 - f))) 7 = (S_W (set_date l cur 1) - f + 7) mod 7"
    by (simp only: S_W_set_date_rotated)
  then show ?thesis
    using assms by (simp add: getDaysInMonth_def Let_def)
qed

lemma islamic_prevMonthOffset:
  "map_sum id prevMonthOffset (getDaysInMonth l (JsDate t) s f islamic)
     = Inr (dayOfWeek (umalqura_hijri l (hy (umalqura_date l t)) (hm (umalqura_date l t)) 1))"
  by (simp add: getDaysInMonth_def getDayjs_def adjustDayjsHijriDate_def Let_def)

lemma demo_ramadan_15: "umalqura_date demo_lib (at_ymd 2025 3 15)
    = \<lparr>hy = 1446, hm = 9, hd_uq = 15, dayOfWeek = 6\<rparr>"
  by code_simp

lemma demo_ramadan_1: "umalqura_hijri demo_lib 1446 9 1
    = \<lparr>hy = 1446, hm = 9, hd_uq = 1, dayOfWeek = 6\<rparr>"
  by code_simp

subsection \<open>The range branch on dayjs objects\<close>

lemma dayjs_Dj [simp]: "dayjs l c (Dj d) = Inr d"
  by (simp add: dayjs_def)


lemma truthy_simps [simp]:
  "truthy (Dj d)" "truthy (JsDate t)" "\<not> truthy Undefined" "\<not> truthy Null"
  by (simp_all add: truthy_def)










subsection \<open>The multiple branch\<close>











section \<open>The claims\<close>

text \<open>
  C7. Converting to the islamic representation is idempotent: for every date \<open>d\<close>,
  \<^verbatim>\<open>getDayjs(getDayjs(d, 'islamic'), 'islamic')\<close> is \<^verbatim>\<open>getDayjs(d, 'islamic')\<close>, the
  TypeError on \<^verbatim>\<open>null\<close> included; and an input already tagged islamic is returned unchanged.
\<close>

theorem getDayjs_islamic_idempotent:
  "ebind (getDayjs l d islamic) (\<lambda>r. getDayjs l (Dj r) islamic) = getDayjs l d islamic
   \<and> (S_C r = islamic \<longrightarrow> getDayjs l (Dj r) islamic = Inr r)"
proof -
  have "ebind (getDayjs l d islamic) (\<lambda>r. getDayjs l (Dj r) islamic) = getDayjs l d islamic"
  proof (cases "getDayjs l d islamic")
    case (Inl e)
    then show ?thesis by simp
  next
    case (Inr x)
    then have "S_C x = islamic" by (rule getDayjs_islamic_tagged)
    with Inr show ?thesis by (simp add: getDayjs_fixed)
  qed
  then show ?thesis by (simp add: getDayjs_fixed)
qed

theorem getDayjs_islamic_idempotent_witness:
  "ebind (getDayjs demo_lib (JsDate (at_ymd 2025 3 15)) islamic)
       (\<lambda>r. getDayjs demo_lib (Dj r) islamic)
     = getDayjs demo_lib (JsDate (at_ymd 2025 3 15)) islamic
   \<and> S_C (toCalendarSystem demo_lib (dayjs_init demo_lib gregory 0) islamic) = islamic
   \<and> getDayjs demo_lib (Dj (toCalendarSystem demo_lib (dayjs_init demo_lib gregory 0) islamic))
        islamic
     = Inr (toCalendarSystem demo_lib (dayjs_init demo_lib gregory 0) islamic)"
  using getDayjs_islamic_idempotent
    [of demo_lib "JsDate (at_ymd 2025 3 15)"
        "toCalendarSystem demo_lib (dayjs_init demo_lib gregory 0) islamic"]
  by simp

text \<open>
  C10. For every calendar, \<open>areDatesOnSameDay l a b calendar\<close> is false whenever \<open>a\<close> or
  \<open>b\<close> is \<^verbatim>\<open>null\<close> or \<^verbatim>\<open>undefined\<close>, whatever the conversions of the library \<open>l\<close> are (none
  is consulted). So a list whose entries are all absent never matches a date: neither as
  \<^verbatim>\<open>enabledDates.some(...)\<close> or \<^verbatim>\<open>disabledDates.some(...)\<close> in \<open>isDateDisabled\<close>, nor
  as \<^verbatim>\<open>safeDates.some(...)\<close> in the multiple branch of \<open>onSelectDate\<close>.
\<close>

theorem areDatesOnSameDay_absent:
  "((a = Null \<or> a = Undefined \<or> b = Null \<or> b = Undefined)
      \<longrightarrow> areDatesOnSameDay l a b calendar = Inr False)
   \<and> ((\<forall>e \<in> set es. e = Null \<or> e = Undefined)
      \<longrightarrow> some_e (\<lambda>e. areDatesOnSameDay l x e calendar) es = Inr False
        \<and> some_e (\<lambda>e. areDatesOnSameDay l e x calendar) es = Inr False)"
proof -
  have one: "\<And>a b. a = Null \<or> a = Undefined \<or> b = Null \<or> b = Undefined
      \<Longrightarrow> areDatesOnSameDay l a b calendar = Inr False"
    by (auto simp: areDatesOnSameDay_def truthy_def)
  have two: "(\<forall>e \<in> set es. e = Null \<or> e = Undefined)
      \<Longrightarrow> some_e (\<lambda>e. areDatesOnSameDay l x e calendar) es = Inr False"
    by (induction es) (auto simp: one)
  have three: "(\<forall>e \<in> set es. e = Null \<or> e = Undefined)
      \<Longrightarrow> some_e (\<lambda>e. areDatesOnSameDay l e x calendar) es = Inr False"
    by (induction es) (auto simp: one)
  show ?thesis using one two three by blast
qed

theorem areDatesOnSameDay_absent_witness:
  "areDatesOnSameDay demo_lib Null (JsDate (at_ymd 2024 1 5)) islamic = Inr False
   \<and> some_e (\<lambda>e. areDatesOnSameDay demo_lib (JsDate (at_ymd 2024 1 5)) e islamic)
        [Null, Undefined] = Inr False
   \<and> some_e (\<lambda>e. areDatesOnSameDay demo_lib e (JsDate (at_ymd 2024 1 5)) islamic)
        [Null, Undefined] = Inr False"
proof -
  have h1: "Null = Null \<or> Null = Undefined \<or> JsDate (at_ymd 2024 1 5) = Null
      \<or> JsDate (at_ymd 2024 1 5) = Undefined"
    by simp
  have h2: "\<forall>e \<in> set [Null, Undefined]. e = Null \<or> e = Undefined"
    by simp
  from h1 h2 show ?thesis
    using areDatesOnSameDay_absent
      [of Null "JsDate (at_ymd 2024 1 5)" demo_lib islamic "[Null, Undefined]"
          "JsDate (at_ymd 2024 1 5)"]
    by blast
qed

text \<open>
  C3. When \<open>enabledDates\<close> is supplied, the result of \<open>isDateDisabled\<close> does not depend on
  \<open>disabledDates\<close> (whatever is put there, supplied or not), and after the two bound
  checks the date is disabled exactly when it does not match \<open>enabledDates\<close>.
\<close>

theorem isDateDisabled_enabledDates_only:
  assumes "enabledDates opts = Some r"
  shows "isDateDisabled l date (opts\<lparr>disabledDates := dd\<rparr>) = isDateDisabled l date opts
       \<and> isDateDisabled l date opts
           = Inr (out_of_bounds l date opts \<or> \<not> rule_matches l date r (rule_calendar opts))"
proof -
  let ?c = "rule_calendar opts"
  have indep: "isDateDisabled l date (opts\<lparr>disabledDates := dd\<rparr>) = isDateDisabled l date opts"
    using assms by (simp add: isDateDisabled_def Let_def cong: if_cong)
  have mn: "(if truthy (minDate opts)
             then ebind (getDayjs l (minDate opts) ?c) (\<lambda>mn. Inr (isBefore date (startOf_day mn)))
             else Inr False)
          = Inr (truthy (minDate opts) \<and>
                 (case getDayjs l (minDate opts) ?c of
                    Inr mn \<Rightarrow> isBefore date (startOf_day mn) | Inl e \<Rightarrow> False))"
  proof (cases "truthy (minDate opts)")
    case True
    then obtain x where "getDayjs l (minDate opts) ?c = Inr x" by (rule getDayjs_truthy_cases)
    with True show ?thesis by simp
  next
    case False
    then show ?thesis by simp
  qed
  have mx: "(if truthy (maxDate opts)
             then ebind (getDayjs l (maxDate opts) ?c) (\<lambda>mx. Inr (isAfter date (endOf_day mx)))
             else Inr False)
          = Inr (truthy (maxDate opts) \<and>
                 (case getDayjs l (maxDate opts) ?c of
                    Inr mx \<Rightarrow> isAfter date (endOf_day mx) | Inl e \<Rightarrow> False))"
  proof (cases "truthy (maxDate opts)")
    case True
    then obtain x where "getDayjs l (maxDate opts) ?c = Inr x" by (rule getDayjs_truthy_cases)
    with True show ?thesis by simp
  next
    case False
    then show ?thesis by simp
  qed
  have rule: "(case r of
                 DateList ds \<Rightarrow>
                   ebind (some_e (\<lambda>enabledDate. areDatesOnSameDay l (Dj date) enabledDate ?c) ds)
                     (\<lambda>isEnabled. Inr (\<not> isEnabled))
               | DateFn f \<Rightarrow> Inr (\<not> f (Dj date)))
             = Inr (\<not> rule_matches l date r ?c)"
    by (cases r) (simp_all add: rule_matches_def some_e_total [OF areDatesOnSameDay_total])
  have "isDateDisabled l date opts
          = Inr (out_of_bounds l date opts \<or> \<not> rule_matches l date r ?c)"
    unfolding isDateDisabled_def Let_def rule_calendar_def [symmetric] mn mx
    using assms rule by (auto simp: out_of_bounds_def)
  with indep show ?thesis by simp
qed

theorem isDateDisabled_enabledDates_only_witness:
  "enabledDates
       \<lparr>minDate = Undefined, maxDate = Undefined,
        enabledDates = Some (DateList [JsDate (at_ymd 2024 1 10)]),
        disabledDates = None, opt_calendar = None\<rparr>
     = Some (DateList [JsDate (at_ymd 2024 1 10)])
   \<and> isDateDisabled demo_lib (dayjs_init demo_lib gregory (at_ymd 2024 1 10 + 3600000))
       (\<lparr>minDate = Undefined, maxDate = Undefined,
         enabledDates = Some (DateList [JsDate (at_ymd 2024 1 10)]),
         disabledDates = None, opt_calendar = None\<rparr>
        \<lparr>disabledDates := Some (DateList [JsDate (at_ymd 2024 1 10)])\<rparr>)
     = Inr False"
proof -
  let ?O = "\<lparr>minDate = Undefined, maxDate = Undefined,
             enabledDates = Some (DateList [JsDate (at_ymd 2024 1 10)]),
             disabledDates = None, opt_calendar = None\<rparr>"
  let ?D = "dayjs_init demo_lib gregory (at_ymd 2024 1 10 + 3600000)"
  have h: "enabledDates ?O = Some (DateList [JsDate (at_ymd 2024 1 10)])"
    by simp
  have v: "isDateDisabled demo_lib ?D ?O = Inr False"
    by code_simp
  from isDateDisabled_enabledDates_only [OF h, of demo_lib ?D
      "Some (DateList [JsDate (at_ymd 2024 1 10)])"]
  have "isDateDisabled demo_lib ?D
          (?O\<lparr>disabledDates := Some (DateList [JsDate (at_ymd 2024 1 10)])\<rparr>)
        = isDateDisabled demo_lib ?D ?O"
    by blast
  with h v show ?thesis by simp
qed

text \<open>
  C4. With \<open>showOutsideDays = true\<close>, for every reference date other than \<^verbatim>\<open>null\<close>,
  every calendar and every first day of the week, \<open>getDaysInMonth\<close> returns counts and
  \<open>getMonthDays\<close> on these counts returns a sequence of 35 or of 42 cells, at least
  \<open>prevMonthOffset + daysInCurrentMonth\<close> and equal to \<open>fullDaysInMonth\<close>. The library
  is asked for month lengths and weekdays in their ranges (\<open>wf_lib\<close>).
\<close>

theorem grid_length_35_or_42:
  assumes "wf_lib l" and "date \<noteq> Null"
  shows "\<exists>c cells.
           getDaysInMonth l date True (g_firstDayOfWeek g) (g_calendar g) = Inr c
         \<and> getMonthDays l date True g (prevMonthDays c) (prevMonthOffset c)
               (daysInCurrentMonth c) (daysInNextMonth c) = Inr cells
         \<and> (length cells = 35 \<or> length cells = 42)
         \<and> prevMonthOffset c + daysInCurrentMonth c \<le> int (length cells)
         \<and> int (length cells) = fullDaysInMonth c"
proof -
  obtain c where c: "getDaysInMonth l date True (g_firstDayOfWeek g) (g_calendar g) = Inr c"
    and off: "0 \<le> prevMonthOffset c" "prevMonthOffset c \<le> 6"
    and dim: "28 \<le> daysInCurrentMonth c" "daysInCurrentMonth c \<le> 31"
    and nxt: "daysInNextMonth c =
           (if True then (if prevMonthOffset c + daysInCurrentMonth c > 35
                       then 42 - (prevMonthOffset c + daysInCurrentMonth c)
                       else 35 - (prevMonthOffset c + daysInCurrentMonth c))
            else 0)"
    using getDaysInMonth_counts [OF assms, of True "g_firstDayOfWeek g" "g_calendar g"] by blast
  obtain ps cs ns where cells:
      "getMonthDays l date True g (prevMonthDays c) (prevMonthOffset c)
         (daysInCurrentMonth c) (daysInNextMonth c) = Inr (ps @ map Some cs @ map Some ns)"
    and len: "length ps = nat (prevMonthOffset c)" "length cs = nat (daysInCurrentMonth c)"
      "length ns = nat (daysInNextMonth c)"
    using getMonthDays_shape [OF assms(2), of True "prevMonthOffset c" l g "prevMonthDays c"
        "daysInCurrentMonth c" "daysInNextMonth c"]
    by auto
  have full: "fullDaysInMonth c
      = prevMonthOffset c + daysInCurrentMonth c + daysInNextMonth c"
    using c assms(2) by (auto simp: getDaysInMonth_def Let_def ebind_def split: sum.splits)
  have total: "int (length (ps @ map Some cs @ map Some ns))
      = prevMonthOffset c + daysInCurrentMonth c + daysInNextMonth c"
    using len off dim nxt by (simp split: if_splits)
  have "length (ps @ map Some cs @ map Some ns) = 35
      \<or> length (ps @ map Some cs @ map Some ns) = 42"
    using total off dim nxt by (auto split: if_splits)
  moreover have "prevMonthOffset c + daysInCurrentMonth c
      \<le> int (length (ps @ map Some cs @ map Some ns))"
    using total off dim nxt by (auto split: if_splits)
  ultimately show ?thesis using c cells full total by auto
qed

theorem grid_length_35_or_42_witness:
  "wf_lib demo_lib \<and> JsDate (at_ymd 2025 3 15) \<noteq> Null
   \<and> (\<exists>c cells.
           getDaysInMonth demo_lib (JsDate (at_ymd 2025 3 15)) True
             (g_firstDayOfWeek (demo_grid islamic 0)) (g_calendar (demo_grid islamic 0)) = Inr c
         \<and> getMonthDays demo_lib (JsDate (at_ymd 2025 3 15)) True (demo_grid islamic 0)
               (prevMonthDays c) (prevMonthOffset c)
               (daysInCurrentMonth c) (daysInNextMonth c) = Inr cells
         \<and> (length cells = 35 \<or> length cells = 42)
         \<and> prevMonthOffset c + daysInCurrentMonth c \<le> int (length cells)
         \<and> int (length cells) = fullDaysInMonth c)"
proof -
  have h: "JsDate (at_ymd 2025 3 15) \<noteq> Null" by simp
  from grid_length_35_or_42 [OF wf_demo_lib h, of "demo_grid islamic 0"] wf_demo_lib h
  show ?thesis by blast
qed

text \<open>
  C5. With \<open>showOutsideDays = false\<close>, for every reference date other than \<^verbatim>\<open>null\<close>,
  every calendar and every first day of the week, the sequence \<open>getMonthDays\<close> returns on
  the counts of \<open>getDaysInMonth\<close> is exactly \<open>prevMonthOffset\<close> \<^verbatim>\<open>null\<close> placeholders
  followed by exactly \<open>daysInCurrentMonth\<close> day cells, and nothing after them.
\<close>

theorem grid_without_outside_days:
  assumes "wf_lib l" and "date \<noteq> Null"
  shows "\<exists>c cs.
           getDaysInMonth l date False (g_firstDayOfWeek g) (g_calendar g) = Inr c
         \<and> getMonthDays l date False g (prevMonthDays c) (prevMonthOffset c)
               (daysInCurrentMonth c) (daysInNextMonth c)
             = Inr (replicate (nat (prevMonthOffset c)) None @ map Some cs)
         \<and> 0 \<le> prevMonthOffset c
         \<and> int (length cs) = daysInCurrentMonth c
         \<and> daysInNextMonth c = 0"
proof -
  obtain c where c: "getDaysInMonth l date False (g_firstDayOfWeek g) (g_calendar g) = Inr c"
    and off: "0 \<le> prevMonthOffset c"
    and dim: "28 \<le> daysInCurrentMonth c"
    and nxt: "daysInNextMonth c =
           (if False then (if prevMonthOffset c + daysInCurrentMonth c > 35
                       then 42 - (prevMonthOffset c + daysInCurrentMonth c)
                       else 35 - (prevMonthOffset c + daysInCurrentMonth c))
            else 0)"
    using getDaysInMonth_counts [OF assms, of False "g_firstDayOfWeek g" "g_calendar g"] by blast
  have off': "False \<or> 0 \<le> prevMonthOffset c" using off by simp
  obtain ps cs ns where cells:
      "getMonthDays l date False g (prevMonthDays c) (prevMonthOffset c)
         (daysInCurrentMonth c) (daysInNextMonth c) = Inr (ps @ map Some cs @ map Some ns)"
    and len: "length cs = nat (daysInCurrentMonth c)" "length ns = nat (daysInNextMonth c)"
    and ps: "ps = replicate (nat (prevMonthOffset c)) None"
    using getMonthDays_shape [OF assms(2) off', of l g "prevMonthDays c"
        "daysInCurrentMonth c" "daysInNextMonth c"]
    by auto
  have "ns = []" using len nxt by simp
  with cells ps have "getMonthDays l date False g (prevMonthDays c) (prevMonthOffset c)
         (daysInCurrentMonth c) (daysInNextMonth c)
       = Inr (replicate (nat (prevMonthOffset c)) None @ map Some cs)"
    by simp
  moreover have "int (length cs) = daysInCurrentMonth c" using len dim by simp
  ultimately show ?thesis using c off nxt by auto
qed

theorem grid_without_outside_days_witness:
  "wf_lib demo_lib \<and> JsDate (at_ymd 2025 3 15) \<noteq> Null
   \<and> (\<exists>c cs.
           getDaysInMonth demo_lib (JsDate (at_ymd 2025 3 15)) False
             (g_firstDayOfWeek (demo_grid gregory 1)) (g_calendar (demo_grid gregory 1)) = Inr c
         \<and> getMonthDays demo_lib (JsDate (at_ymd 2025 3 15)) False (demo_grid gregory 1)
               (prevMonthDays c) (prevMonthOffset c)
               (daysInCurrentMonth c) (daysInNextMonth c)
             = Inr (replicate (nat (prevMonthOffset c)) None @ map Some cs)
         \<and> 0 \<le> prevMonthOffset c
         \<and> int (length cs) = daysInCurrentMonth c
         \<and> daysInNextMonth c = 0)"
proof -
  have h: "JsDate (at_ymd 2025 3 15) \<noteq> Null" by simp
  from grid_without_outside_days [OF wf_demo_lib h, of "demo_grid gregory 1"] wf_demo_lib h
  show ?thesis by blast
qed

text \<open>
  C2. In islamic mode \<open>getDaysInMonth\<close> does not rotate the offset: for a reference date
  in Ramadan 1446, whose day 1 is a Saturday (weekday 6), and \<open>firstDayOfWeek = 1\<close> it
  returns \<open>prevMonthOffset = 6\<close>, where the claimed formula gives 5.
\<close>

theorem islamic_prevMonthOffset_not_rotated:
  "map_sum id prevMonthOffset
       (getDaysInMonth demo_lib (JsDate (at_ymd 2025 3 15)) True 1 islamic) = Inr 6
   \<and> (dayOfWeek (umalqura_hijri demo_lib 1446 9 1) - 1 + 7) mod 7 = 5"
  by (simp add: islamic_prevMonthOffset demo_ramadan_15 demo_ramadan_1)












end
